theory Spec2Isabelle
  imports Main "HOL-Library.AList"
begin

section \<open>Strings of the plugin\<close>

text \<open>
  A JavaScript string is modelled as a \<open>string\<close>: a list of code units, here the
  8-bit ones. Equality, concatenation, \<open>split\<close>, \<open>join\<close> and \<open>trim\<close> work unit
  by unit, so they do not depend on the width of a unit.
\<close>

text \<open>\<open>s.split(sep)\<close> for a separator of one unit: the result is never empty.\<close>

fun split_js :: "char \<Rightarrow> string \<Rightarrow> string list" where
  "split_js sep [] = [[]]"
| "split_js sep (c # cs) =
     (if c = sep then [] # split_js sep cs
      else (case split_js sep cs of
              [] \<Rightarrow> [[c]]
            | w # ws \<Rightarrow> (c # w) # ws))"

text \<open>\<open>xs.join(sep)\<close>.\<close>

fun join_js :: "string \<Rightarrow> string list \<Rightarrow> string" where
  "join_js sep [] = []"
| "join_js sep [x] = x"
| "join_js sep (x # y # ys) = x @ sep @ join_js sep (y # ys)"

text \<open>
  White space as \<open>String.prototype.trim\<close> and the class \<open>\s\<close> see it, among the
  8-bit units: tab, line feed, vertical tab, form feed, carriage return, space and the
  no-break space. The line terminators among them are line feed and carriage return.
\<close>

definition is_ws :: "char \<Rightarrow> bool" where
  "is_ws c \<longleftrightarrow> c = CHR 0x09 \<or> c = CHR 0x0A \<or> c = CHR 0x0B \<or> c = CHR 0x0C
     \<or> c = CHR 0x0D \<or> c = CHR 0x20 \<or> c = CHR 0xA0"

definition is_lt :: "char \<Rightarrow> bool" where
  "is_lt c \<longleftrightarrow> c = CHR 0x0A \<or> c = CHR 0x0D"

definition trimStart :: "string \<Rightarrow> string" where
  "trimStart s = dropWhile is_ws s"

definition trim :: "string \<Rightarrow> string" where
  "trim s = rev (dropWhile is_ws (rev (dropWhile is_ws s)))"

section \<open>Settings and the derivation of folder tags (main.ts)\<close>

text \<open>
  The sources hold two revisions of main.ts in one file, \<open>src/unnamed/part_000\<close>. Its
  lines 1-223 are the revision that is built into main.js: it edits the frontmatter
  through the host's \<open>processFrontMatter\<close>. Its lines 224-560 are a revision that edits
  the text of the note itself and knows an inline \<open>tags::\<close> line. Line numbers below are
  those of that file. This part and the next three follow the built revision.
\<close>

datatype folderDepth = Depth1 | Depth2split | Depth2single | DepthFull

record settings =
  folderDepth :: folderDepth
  tagPrefix :: string
  tagSuffix :: string

definition DEFAULT_SETTINGS :: settings where
  "DEFAULT_SETTINGS = \<lparr> folderDepth = Depth1, tagPrefix = [], tagSuffix = [] \<rparr>"

text \<open>
  \<open>getFolderTagsFromPath\<close>. The host's \<open>normalizePath\<close> is not part of the plugin and
  is the parameter \<open>np\<close>. \<open>parts\<close> is the path split at the slashes without its last
  piece, the file name. The reads \<open>parts[parts.length - 1]\<close> and
  \<open>parts[parts.length - 2]\<close> are in range where the source makes them.
\<close>

definition getFolderTagsFromPath :: "(string \<Rightarrow> string) \<Rightarrow> settings \<Rightarrow> string \<Rightarrow> string list" where
  "getFolderTagsFromPath np st p =
     (let normalized = np p;
          parts = butlast (split_js CHR ''/'' normalized)
      in if parts = [] then []
         else (case folderDepth st of
                 Depth1 \<Rightarrow> [tagPrefix st @ parts ! (length parts - 1) @ tagSuffix st]
               | Depth2split \<Rightarrow>
                   (if length parts \<ge> 2
                    then [tagPrefix st @ parts ! (length parts - 1) @ tagSuffix st,
                          tagPrefix st @ parts ! (length parts - 2) @ tagSuffix st]
                    else [tagPrefix st @ parts ! (length parts - 1) @ tagSuffix st])
               | Depth2single \<Rightarrow>
                   (if length parts \<ge> 2
                    then [tagPrefix st @ parts ! (length parts - 2) @ ''/''
                            @ parts ! (length parts - 1) @ tagSuffix st]
                    else [tagPrefix st @ parts ! (length parts - 1) @ tagSuffix st])
               | DepthFull \<Rightarrow> [tagPrefix st @ join_js ''/'' parts @ tagSuffix st]))"

section \<open>Frontmatter values and the two mutators (main.ts)\<close>

text \<open>
  The values the host hands over after parsing a frontmatter block. The plugin reads a
  number only through \<open>String\<close>, so a number is kept as the text that \<open>String\<close> gives
  for it, whatever its size or form.
\<close>

datatype jsval =
    JStr string
  | JNum string
  | JBool bool
  | JNull
  | JArr "jsval list"
  | JObj "(string \<times> jsval) list"

text \<open>
  \<open>String(v)\<close>. An array is joined with commas, a \<open>null\<close> entry giving the empty text;
  an object gives the fixed text of \<open>Object.prototype.toString\<close>.
\<close>

fun String_js :: "jsval \<Rightarrow> string" where
  "String_js (JStr s) = s"
| "String_js (JNum shown) = shown"
| "String_js (JBool b) = (if b then ''true'' else ''false'')"
| "String_js JNull = ''null''"
| "String_js (JArr xs) = join_js '','' (map (\<lambda>x. if x = JNull then [] else String_js x) xs)"
| "String_js (JObj kvs) = ''[object Object]''"

text \<open>
  The argument of the callback of \<open>processFrontMatter\<close>: an object, kept as the list of
  its keys and values in insertion order, or a value that the guard
  \<open>!yaml || typeof yaml !== "object"\<close> turns away.
\<close>

datatype frontmatter = FmObject "(string \<times> jsval) list" | NotAnObject

datatype action = Create | Move | Rerun

text \<open>
  Lines 92-96 and 122-127, the same in both callbacks: the entries of \<open>yaml.tags\<close>, each
  coerced to a string and trimmed when it is an array, the trimmed pieces between commas
  when it is a string, nothing otherwise.
\<close>

definition existingTagsOf :: "(string \<times> jsval) list \<Rightarrow> string list" where
  "existingTagsOf yaml =
     (case map_of yaml ''tags'' of
        None \<Rightarrow> []
      | Some (JArr ts) \<Rightarrow> map (\<lambda>t. trim (String_js t)) ts
      | Some (JStr s) \<Rightarrow> map trim (split_js CHR '','' s)
      | Some _ \<Rightarrow> [])"

text \<open>Line 105: \<open>folderTags.forEach(t => { if (!existingTags.includes(t)) existingTags.push(t); })\<close>.\<close>

fun pushNew :: "'a list \<Rightarrow> 'a list \<Rightarrow> 'a list" where
  "pushNew existingTags [] = existingTags"
| "pushNew existingTags (t # ts) =
     pushNew (if t \<in> set existingTags then existingTags else existingTags @ [t]) ts"

text \<open>
  Lines 92-105 of the callback of \<open>applyFolderTag\<close>: the list that is assigned to
  \<open>yaml.tags\<close>. An old path counts when it is given and not the empty string.
\<close>

definition applyTagList ::
  "(string \<Rightarrow> string) \<Rightarrow> settings \<Rightarrow> action \<Rightarrow> string option \<Rightarrow> string list
     \<Rightarrow> (string \<times> jsval) list \<Rightarrow> string list" where
  "applyTagList np st act oldPath folderTags yaml =
     (let existingTags = existingTagsOf yaml;
          existingTags' =
            (case oldPath of
               Some old \<Rightarrow>
                 if (act = Move \<or> act = Rerun) \<and> old \<noteq> []
                 then (let oldTags = getFolderTagsFromPath np st old
                       in filter (\<lambda>t. t \<notin> set oldTags) existingTags)
                 else existingTags
             | None \<Rightarrow> existingTags)
      in pushNew existingTags' folderTags)"

definition applyMutator ::
  "(string \<Rightarrow> string) \<Rightarrow> settings \<Rightarrow> action \<Rightarrow> string option \<Rightarrow> string list
     \<Rightarrow> frontmatter \<Rightarrow> frontmatter" where
  "applyMutator np st act oldPath folderTags yaml =
     (case yaml of
        NotAnObject \<Rightarrow> NotAnObject
      | FmObject kv \<Rightarrow>
          FmObject (AList.update ''tags''
            (JArr (map JStr (applyTagList np st act oldPath folderTags kv))) kv))"

text \<open>Lines 119-133, the callback of \<open>removeFolderTags\<close>.\<close>

definition removeMutator :: "string list \<Rightarrow> frontmatter \<Rightarrow> frontmatter" where
  "removeMutator folderTags yaml =
     (case yaml of
        NotAnObject \<Rightarrow> NotAnObject
      | FmObject kv \<Rightarrow>
          (let existingTags = filter (\<lambda>t. t \<notin> set folderTags) (existingTagsOf kv)
           in if existingTags = [] then FmObject (AList.delete ''tags'' kv)
              else FmObject (AList.update ''tags'' (JArr (map JStr existingTags)) kv)))"

section \<open>Notes, the host's frontmatter transaction and the two operations (main.ts)\<close>

text \<open>
  A note of the vault: its path and its frontmatter as the host parses it. \<open>front\<close> is
  \<open>None\<close> for a note on which the host's \<open>processFrontMatter\<close> rejects (the file cannot
  be read or written, or its block does not parse); the rejection is the error value.
\<close>

record TFile =
  path :: string
  front :: "frontmatter option"

datatype error = ProcessFailed string

definition processFrontMatter :: "TFile \<Rightarrow> (frontmatter \<Rightarrow> frontmatter) \<Rightarrow> error + TFile" where
  "processFrontMatter file fn =
     (case front file of
        None \<Rightarrow> Inl (ProcessFailed (path file))
      | Some yaml \<Rightarrow> Inr (file\<lparr>front := Some (fn yaml)\<rparr>))"

definition getFolderTags :: "(string \<Rightarrow> string) \<Rightarrow> settings \<Rightarrow> TFile \<Rightarrow> string list" where
  "getFolderTags np st file = getFolderTagsFromPath np st (path file)"

definition applyFolderTag ::
  "(string \<Rightarrow> string) \<Rightarrow> settings \<Rightarrow> TFile \<Rightarrow> action \<Rightarrow> string option \<Rightarrow> error + TFile" where
  "applyFolderTag np st file act oldPath =
     (let folderTags = getFolderTags np st file
      in if folderTags = [] then Inr file
         else processFrontMatter file (applyMutator np st act oldPath folderTags))"

definition removeFolderTags :: "(string \<Rightarrow> string) \<Rightarrow> settings \<Rightarrow> TFile \<Rightarrow> error + TFile" where
  "removeFolderTags np st file =
     (let folderTags = getFolderTags np st file
      in if folderTags = [] then Inr file
         else processFrontMatter file (removeMutator folderTags))"

section \<open>The two bulk passes of the settings tab (main.ts)\<close>

text \<open>
  Lines 192-204. Each call is wrapped in \<open>try\<close>/\<open>catch\<close>: a rejection leaves the note as
  it is, raises a notice for it, and the loop goes on. The result is the notes after the
  pass and the notices in the order they are raised.
\<close>

fun reapplyLoop :: "(string \<Rightarrow> string) \<Rightarrow> settings \<Rightarrow> TFile list \<Rightarrow> TFile list \<times> string list" where
  "reapplyLoop np st [] = ([], [])"
| "reapplyLoop np st (file # files) =
     (case applyFolderTag np st file Rerun None of
        Inr file' \<Rightarrow> (file' # fst (reapplyLoop np st files), snd (reapplyLoop np st files))
      | Inl e \<Rightarrow> (file # fst (reapplyLoop np st files),
                  (''Failed to process: '' @ path file) # snd (reapplyLoop np st files)))"

definition reapplyAll :: "(string \<Rightarrow> string) \<Rightarrow> settings \<Rightarrow> TFile list \<Rightarrow> TFile list \<times> string list" where
  "reapplyAll np st files =
     (fst (reapplyLoop np st files),
      [''Updating all notes...''] @ snd (reapplyLoop np st files)
        @ [''Folder tags updated for all notes!''])"

text \<open>
  Lines 213-220. The call is not wrapped: a rejection leaves the loop and the handler, the
  notes from the failing one on stay as they are and the closing notice is not raised. The
  result is the notes, the notices and the error that escaped, if any.
\<close>

fun removeLoop :: "(string \<Rightarrow> string) \<Rightarrow> settings \<Rightarrow> TFile list \<Rightarrow> TFile list \<times> error option" where
  "removeLoop np st [] = ([], None)"
| "removeLoop np st (file # files) =
     (case removeFolderTags np st file of
        Inl e \<Rightarrow> (file # files, Some e)
      | Inr file' \<Rightarrow> (file' # fst (removeLoop np st files), snd (removeLoop np st files)))"

definition removeAll ::
  "(string \<Rightarrow> string) \<Rightarrow> settings \<Rightarrow> TFile list \<Rightarrow> TFile list \<times> string list \<times> error option" where
  "removeAll np st files =
     (fst (removeLoop np st files),
      [''Removing folder tags from all notes...'']
        @ (case snd (removeLoop np st files) of
             None \<Rightarrow> [''All folder tags removed!'']
           | Some e \<Rightarrow> []),
      snd (removeLoop np st files))"

section \<open>The revision of main.ts that edits the text of a note\<close>

text \<open>
  This revision (lines 224-560) reads the note as text, finds a frontmatter block or an
  inline \<open>tags::\<close> line with regular expressions, and writes the text back. The YAML
  library is not part of the plugin: \<open>jsyaml.load\<close> and \<open>jsyaml.dump\<close> are the
  parameters \<open>load\<close> and \<open>dump\<close>. \<open>load\<close> gives \<open>None\<close> where the library throws or
  gives no value, the two cases in which the source goes on with an empty object; a block
  that parses to something else than a mapping is outside this model.
\<close>

datatype tagStyle = Yaml | Inline

record textSettings = settings +
  defaultTagStyle :: tagStyle
  overrideExisting :: bool

definition DEFAULT_SETTINGS_text :: textSettings where
  "DEFAULT_SETTINGS_text =
     \<lparr> folderDepth = Depth1, tagPrefix = [], tagSuffix = [],
       defaultTagStyle = Yaml, overrideExisting = False \<rparr>"

text \<open>\<open>getFolderTags\<close> of this revision (lines 280-312): no \<open>normalizePath\<close>.\<close>

definition getFolderTags_text :: "textSettings \<Rightarrow> string \<Rightarrow> string list" where
  "getFolderTags_text st p =
     (let pathParts = butlast (split_js CHR ''/'' p)
      in if length pathParts = 0 then []
         else (case folderDepth st of
                 Depth1 \<Rightarrow> [tagPrefix st @ pathParts ! (length pathParts - 1) @ tagSuffix st]
               | Depth2split \<Rightarrow>
                   (if length pathParts \<ge> 2
                    then [tagPrefix st @ pathParts ! (length pathParts - 1) @ tagSuffix st,
                          tagPrefix st @ pathParts ! (length pathParts - 2) @ tagSuffix st]
                    else [tagPrefix st @ pathParts ! (length pathParts - 1) @ tagSuffix st])
               | Depth2single \<Rightarrow>
                   (if length pathParts \<ge> 2
                    then [tagPrefix st @ pathParts ! (length pathParts - 2) @ ''/''
                            @ pathParts ! (length pathParts - 1) @ tagSuffix st]
                    else [tagPrefix st @ pathParts ! (length pathParts - 1) @ tagSuffix st])
               | DepthFull \<Rightarrow> [tagPrefix st @ join_js ''/'' pathParts @ tagSuffix st]))"

subsection \<open>The frontmatter pattern\<close>

text \<open>The first place where \<open>needle\<close> occurs: the text before it and the text after it.\<close>

fun findSub :: "string \<Rightarrow> string \<Rightarrow> (string \<times> string) option" where
  "findSub needle [] = (if needle = [] then Some ([], []) else None)"
| "findSub needle (c # cs) =
     (if take (length needle) (c # cs) = needle
      then Some ([], drop (length needle) (c # cs))
      else map_option (\<lambda>(b, a). (c # b, a)) (findSub needle cs))"

text \<open>
  \<open>/^---\n([\s\S]*?)\n---/\<close>, without flags: the text must begin with three dashes and a
  line feed; the lazy group then ends at the first line feed followed by three dashes.
  The result is the group and the text after the match.
\<close>

definition yamlMatch :: "string \<Rightarrow> (string \<times> string) option" where
  "yamlMatch content =
     (if take 4 content = ''---\<newline>''
      then findSub ''\<newline>---'' (drop 4 content)
      else None)"

subsection \<open>The inline pattern\<close>

text \<open>
  \<open>/^tags\s*::?\s*(.+)$/m\<close>, matched with backtracking in the order of the engine.
  \<open>captureLine\<close> is \<open>(.+)$\<close>: the greedy group runs to the end of the line and must
  not be empty. \<open>captureBack k\<close> is \<open>\s*(.+)$\<close> once \<open>\s*\<close> has taken \<open>k\<close> units: if
  the group fails there, the white space gives units back one at a time. The first
  \<open>\s*\<close> cannot give anything back, since a colon must follow it. The optional second
  colon is taken first and given back if nothing matches after it.
  The result is the group and the text after the match.
\<close>

definition captureLine :: "string \<Rightarrow> (string \<times> string) option" where
  "captureLine s =
     (let cap = takeWhile (\<lambda>c. \<not> is_lt c) s
      in if cap = [] then None else Some (cap, drop (length cap) s))"

fun captureBack :: "nat \<Rightarrow> string \<Rightarrow> (string \<times> string) option" where
  "captureBack 0 s = captureLine s"
| "captureBack (Suc k) s =
     (case captureLine (drop (Suc k) s) of
        Some r \<Rightarrow> Some r
      | None \<Rightarrow> captureBack k s)"

definition captureAfterWs :: "string \<Rightarrow> (string \<times> string) option" where
  "captureAfterWs s = captureBack (length (takeWhile is_ws s)) s"

definition matchInlineAt :: "string \<Rightarrow> (string \<times> string) option" where
  "matchInlineAt s =
     (if take 4 s = ''tags''
      then (case dropWhile is_ws (drop 4 s) of
              [] \<Rightarrow> None
            | c # r \<Rightarrow>
                if c = CHR '':''
                then (case r of
                        [] \<Rightarrow> captureAfterWs r
                      | c2 # r2 \<Rightarrow>
                          if c2 = CHR '':''
                          then (case captureAfterWs r2 of
                                  Some x \<Rightarrow> Some x
                                | None \<Rightarrow> captureAfterWs r)
                          else captureAfterWs r)
                else None)
      else None)"

text \<open>
  The search for the first match. With the flag \<open>m\<close>, \<open>^\<close> holds at the start of the
  text and after a line terminator; \<open>bol\<close> says whether it holds here. The result is
  the text before the match, the match, the group and the text after the match.
\<close>

fun findInline :: "bool \<Rightarrow> string \<Rightarrow> (string \<times> string \<times> string \<times> string) option" where
  "findInline bol [] = None"
| "findInline bol (c # cs) =
     (case (if bol then matchInlineAt (c # cs) else None) of
        Some (cap, after) \<Rightarrow>
          Some ([], take (length (c # cs) - length after) (c # cs), cap, after)
      | None \<Rightarrow> map_option (\<lambda>(b, m, cap, a). (c # b, m, cap, a)) (findInline (is_lt c) cs))"

text \<open>
  The replacement text of \<open>String.prototype.replace\<close> with one group: \<open>$$\<close> is a
  dollar, \<open>$&\<close> the match, \<open>$`\<close> the text before it, \<open>$'\<close> the text after it, \<open>$1\<close>
  and \<open>$01\<close> the group; any other dollar stands for itself.
\<close>

fun expandTemplate :: "string \<Rightarrow> string \<Rightarrow> string \<Rightarrow> string \<Rightarrow> string \<Rightarrow> string" where
  "expandTemplate m b a cap [] = []"
| "expandTemplate m b a cap [c] = [c]"
| "expandTemplate m b a cap (c # d # r) =
     (if c \<noteq> CHR ''$'' then c # expandTemplate m b a cap (d # r)
      else if d = CHR ''$'' then CHR ''$'' # expandTemplate m b a cap r
      else if d = CHR ''&'' then m @ expandTemplate m b a cap r
      else if d = CHR 0x60 then b @ expandTemplate m b a cap r
      else if d = CHR 0x27 then a @ expandTemplate m b a cap r
      else if d = CHR ''1'' then cap @ expandTemplate m b a cap r
      else if d = CHR ''0'' \<and> take 1 r = ''1'' then cap @ expandTemplate m b a cap (drop 1 r)
      else CHR ''$'' # expandTemplate m b a cap (d # r))"

text \<open>\<open>content.replace(inlineTagRegex, newLine)\<close>: the first match only.\<close>

definition replaceInline :: "string \<Rightarrow> string \<Rightarrow> string" where
  "replaceInline content newLine =
     (case findInline True content of
        None \<Rightarrow> content
      | Some (b, m, cap, a) \<Rightarrow> b @ expandTemplate m b a cap newLine @ a)"

subsection \<open>applyFolderTag and removeFolderTags on the text\<close>

text \<open>\<open>oldPath.split("/").slice(-2, -1)[0]\<close>: the last folder of the old path, if any.\<close>

definition oldFolderOf :: "string \<Rightarrow> string option" where
  "oldFolderOf oldPath =
     (let ps = split_js CHR ''/'' oldPath
      in if length ps \<ge> 2 then Some (ps ! (length ps - 2)) else None)"

text \<open>Lines 339-350: the tags of the parsed block after the update.\<close>

definition yamlTagList :: "action \<Rightarrow> string option \<Rightarrow> string list \<Rightarrow> (string \<times> jsval) list \<Rightarrow> jsval list" where
  "yamlTagList act oldPath folderTags yamlObj =
     (let tags = (case map_of yamlObj ''tags'' of Some (JArr xs) \<Rightarrow> xs | _ \<Rightarrow> []);
          tags' =
            (case oldPath of
               Some old \<Rightarrow>
                 if (act = Move \<or> act = Rerun) \<and> old \<noteq> []
                 then (let oldFolder = oldFolderOf old
                       in filter (\<lambda>t. Some t \<noteq> map_option JStr oldFolder) tags)
                 else tags
             | None \<Rightarrow> tags)
      in pushNew tags' (map JStr folderTags))"

text \<open>Lines 365-373: the tags of the inline line after the update.\<close>

definition inlineTagList :: "action \<Rightarrow> string option \<Rightarrow> string list \<Rightarrow> string \<Rightarrow> string list" where
  "inlineTagList act oldPath folderTags cap =
     (let tags = map trim (split_js CHR '','' cap);
          tags' =
            (case oldPath of
               Some old \<Rightarrow>
                 if (act = Move \<or> act = Rerun) \<and> old \<noteq> []
                 then (let oldFolder = oldFolderOf old
                       in filter (\<lambda>t. Some t \<noteq> oldFolder) tags)
                 else tags
             | None \<Rightarrow> tags)
      in pushNew tags' folderTags)"

text \<open>Lines 360-383: what is done when the frontmatter branch is not taken.\<close>

definition applyInline_text ::
  "textSettings \<Rightarrow> string list \<Rightarrow> string \<Rightarrow> action \<Rightarrow> string option \<Rightarrow> string" where
  "applyInline_text st folderTags content act oldPath =
     (case (if act \<noteq> Create \<or> overrideExisting st then findInline True content else None) of
        Some (b, m, cap, a) \<Rightarrow>
          (let tags = inlineTagList act oldPath folderTags cap;
               newLine = ''tags:: '' @ join_js '', '' tags
           in replaceInline content newLine)
      | None \<Rightarrow>
          ''---\<newline>tags:\<newline>''
            @ join_js ''\<newline>'' (map (\<lambda>t. ''  - '' @ t) folderTags)
            @ ''\<newline>---\<newline>'' @ trimStart content)"

text \<open>
  Lines 317-384. The result is the text of the note after the call; where the source
  returns without writing, it is the text as it was.
\<close>

definition applyFolderTag_text ::
  "(string \<Rightarrow> (string \<times> jsval) list option) \<Rightarrow> ((string \<times> jsval) list \<Rightarrow> string)
     \<Rightarrow> textSettings \<Rightarrow> string \<Rightarrow> string \<Rightarrow> action \<Rightarrow> string option \<Rightarrow> string" where
  "applyFolderTag_text load dump st p content act oldPath =
     (let folderTags = getFolderTags_text st p
      in if folderTags = [] then content
         else (case yamlMatch content of
                 Some (yamlStr, rest) \<Rightarrow>
                   if act \<noteq> Create \<or> overrideExisting st
                   then (let body = trimStart rest;
                             yamlObj = (case load yamlStr of Some obj \<Rightarrow> obj | None \<Rightarrow> []);
                             tags = yamlTagList act oldPath folderTags yamlObj;
                             yamlObj' = AList.update ''tags'' (JArr tags) yamlObj;
                             newYaml = trim (dump yamlObj')
                         in ''---\<newline>'' @ newYaml
                              @ ''\<newline>---\<newline>'' @ body)
                   else applyInline_text st folderTags content act oldPath
               | None \<Rightarrow> applyInline_text st folderTags content act oldPath))"

text \<open>Lines 389-434.\<close>

definition removeFolderTags_text ::
  "(string \<Rightarrow> (string \<times> jsval) list option) \<Rightarrow> ((string \<times> jsval) list \<Rightarrow> string)
     \<Rightarrow> textSettings \<Rightarrow> string \<Rightarrow> string \<Rightarrow> string" where
  "removeFolderTags_text load dump st p content =
     (let folderTags = getFolderTags_text st p
      in if folderTags = [] then content
         else (case yamlMatch content of
                 Some (yamlStr, rest) \<Rightarrow>
                   (let body = trimStart rest;
                        yamlObj = (case load yamlStr of Some obj \<Rightarrow> obj | None \<Rightarrow> []);
                        yamlObj' =
                          (case map_of yamlObj ''tags'' of
                             Some (JArr xs) \<Rightarrow>
                               AList.update ''tags''
                                 (JArr (filter (\<lambda>t. t \<notin> JStr ` set folderTags) xs)) yamlObj
                           | _ \<Rightarrow> yamlObj);
                        newYaml = trim (dump yamlObj')
                    in ''---\<newline>'' @ newYaml
                         @ ''\<newline>---\<newline>'' @ body)
               | None \<Rightarrow>
                   (case findInline True content of
                      Some (b, m, cap, a) \<Rightarrow>
                        (let tags = filter (\<lambda>t. t \<notin> set folderTags)
                                      (map trim (split_js CHR '','' cap));
                             newLine = ''tags:: '' @ join_js '', '' tags
                         in replaceInline content newLine)
                    | None \<Rightarrow> content)))"

section \<open>The stale set of a call\<close>

text \<open>
  The tags that lines 99-101 filter out of the existing ones: those of the old path, when
  the action is a move or a rerun and an old path is given; none otherwise.
\<close>

definition staleTags :: "(string \<Rightarrow> string) \<Rightarrow> settings \<Rightarrow> action \<Rightarrow> string option \<Rightarrow> string list" where
  "staleTags np st act oldPath =
     (case oldPath of
        Some old \<Rightarrow> if (act = Move \<or> act = Rerun) \<and> old \<noteq> []
                    then getFolderTagsFromPath np st old else []
      | None \<Rightarrow> [])"

section \<open>Facts about the push loop and about trimming\<close>

lemma pushNew_set: "set (pushNew xs ts) = set xs \<union> set ts"
  by (induction ts arbitrary: xs) auto

lemma pushNew_filter:
  "(\<forall>t\<in>set ts. \<not> P t) \<Longrightarrow> filter P (pushNew xs ts) = filter P xs"
  by (induction ts arbitrary: xs) auto

lemma pushNew_count:
  "count_list (pushNew xs ts) t = (if t \<in> set ts \<and> t \<notin> set xs then 1 else count_list xs t)"
proof (induction ts arbitrary: xs)
  case Nil
  then show ?case by simp
next
  case (Cons a ts)
  show ?case
  proof (cases "a \<in> set xs")
    case True
    then show ?thesis using Cons.IH [of xs] by auto
  next
    case False
    then show ?thesis using Cons.IH [of "xs @ [a]"] by (auto simp: count_list_0_iff)
  qed
qed

lemma pushNew_split:
  "\<exists>news. pushNew xs ts = xs @ news \<and> distinct news \<and> set news = set ts - set xs"
proof (induction ts arbitrary: xs)
  case Nil
  then show ?case by simp
next
  case (Cons a ts)
  show ?case
  proof (cases "a \<in> set xs")
    case True
    then show ?thesis using Cons.IH [of xs] by auto
  next
    case False
    obtain news where n: "pushNew (xs @ [a]) ts = (xs @ [a]) @ news" "distinct news"
      "set news = set ts - set (xs @ [a])"
      using Cons.IH [of "xs @ [a]"] by blast
    have "pushNew xs (a # ts) = xs @ (a # news)" using False n(1) by simp
    moreover have "distinct (a # news)" using n(2,3) by auto
    moreover have "set (a # news) = set (a # ts) - set xs" using False n(3) by auto
    ultimately show ?thesis by blast
  qed
qed

lemma pushNew_present: "set ts \<subseteq> set xs \<Longrightarrow> pushNew xs ts = xs"
  by (induction ts arbitrary: xs) auto

lemma count_list_filter:
  "count_list (filter P xs) t = (if P t then count_list xs t else 0)"
  by (induction xs) auto

lemma last_dropWhile: "dropWhile P xs \<noteq> [] \<Longrightarrow> last (dropWhile P xs) = last xs"
  by (induction xs) (auto split: if_splits)

lemma trim_stripped:
  "trim s = [] \<or> (\<not> is_ws (hd (trim s)) \<and> \<not> is_ws (last (trim s)))"
proof (cases "trim s = []")
  case True
  then show ?thesis by simp
next
  case False
  define a where "a = dropWhile is_ws s"
  define b where "b = dropWhile is_ws (rev a)"
  have t: "trim s = rev b" by (simp add: trim_def a_def b_def)
  with False have bne: "b \<noteq> []" by simp
  then have ane: "a \<noteq> []" by (auto simp: b_def)
  have "last (trim s) = hd b" using t bne by (simp add: last_rev)
  moreover have "\<not> is_ws (hd b)" using bne unfolding b_def by (rule hd_dropWhile)
  moreover have "hd (trim s) = last b" using t bne by (simp add: hd_rev)
  moreover have "last b = last (rev a)" using bne unfolding b_def by (rule last_dropWhile)
  moreover have "last (rev a) = hd a" using ane by (simp add: last_rev)
  moreover have "\<not> is_ws (hd a)" using ane unfolding a_def by (rule hd_dropWhile)
  ultimately show ?thesis by simp
qed

lemma trim_fixed: "s = [] \<or> (\<not> is_ws (hd s) \<and> \<not> is_ws (last s)) \<Longrightarrow> trim s = s"
proof (cases s)
  case Nil
  then show ?thesis by (simp add: trim_def)
next
  case (Cons c cs)
  assume "s = [] \<or> (\<not> is_ws (hd s) \<and> \<not> is_ws (last s))"
  with Cons have h: "\<not> is_ws c" and l: "\<not> is_ws (last s)" by auto
  have 1: "dropWhile is_ws s = s" using Cons h by simp
  have ne: "rev s \<noteq> []" using Cons by simp
  have "hd (rev s) = last s" using Cons by (simp add: hd_rev)
  with l have "\<not> is_ws (hd (rev s))" by simp
  with ne have 2: "dropWhile is_ws (rev s) = rev s"
    by (cases "rev s") simp_all
  show ?thesis by (simp add: trim_def 1 2)
qed

lemma trim_idem: "trim (trim s) = trim s"
  using trim_stripped [of s] by (rule trim_fixed)

lemmas run_defs = applyFolderTag_def removeFolderTags_def getFolderTags_def
  getFolderTagsFromPath_def processFrontMatter_def applyMutator_def removeMutator_def
  applyTagList_def existingTagsOf_def trim_def is_ws_def DEFAULT_SETTINGS_def Let_def

lemma applyTagList_stale:
  "applyTagList np st act oldPath folderTags kv =
     pushNew (filter (\<lambda>t. t \<notin> set (staleTags np st act oldPath)) (existingTagsOf kv)) folderTags"
  by (auto simp: applyTagList_def staleTags_def Let_def split: option.splits)

lemma applyFolderTag_object:
  assumes "front file = Some (FmObject kv)"
    and "getFolderTagsFromPath np st (path file) = folderTags"
    and "folderTags \<noteq> []"
  shows "applyFolderTag np st file act oldPath =
           Inr (file\<lparr>front := Some (FmObject (AList.update ''tags''
                  (JArr (map JStr (applyTagList np st act oldPath folderTags kv))) kv))\<rparr>)"
  using assms
  by (simp add: applyFolderTag_def getFolderTags_def processFrontMatter_def applyMutator_def)

lemma reapplyLoop_nth:
  "i < length files \<Longrightarrow>
     fst (reapplyLoop np st files) ! i =
       (case applyFolderTag np st (files ! i) Rerun None of
          Inr file' \<Rightarrow> file'
        | Inl e \<Rightarrow> files ! i)"
proof (induction files arbitrary: i)
  case Nil
  then show ?case by simp
next
  case (Cons f fs)
  show ?case
  proof (cases i)
    case 0
    then show ?thesis by (simp split: sum.splits)
  next
    case (Suc j)
    with Cons.prems have "j < length fs" by simp
    from Cons.IH [OF this] Suc show ?thesis by (simp split: sum.splits)
  qed
qed


lemmas text_defs = applyFolderTag_text_def removeFolderTags_text_def applyInline_text_def
  getFolderTags_text_def yamlMatch_def replaceInline_def matchInlineAt_def captureAfterWs_def
  captureLine_def inlineTagList_def yamlTagList_def oldFolderOf_def trimStart_def trim_def
  is_ws_def is_lt_def DEFAULT_SETTINGS_text_def Let_def

lemma findSub_Some: "findSub needle s = Some (b, a) \<Longrightarrow> s = b @ needle @ a"
proof (induction s arbitrary: b)
  case Nil
  then show ?case by (simp split: if_splits)
next
  case (Cons c cs)
  show ?case
  proof (cases "take (length needle) (c # cs) = needle")
    case True
    with Cons.prems have "b = []" and "a = drop (length needle) (c # cs)" by simp_all
    moreover have "c # cs = take (length needle) (c # cs) @ drop (length needle) (c # cs)"
      by (simp only: append_take_drop_id)
    ultimately show ?thesis using True by simp
  next
    case False
    with Cons.prems obtain b' where "findSub needle cs = Some (b', a)" and "b = c # b'"
      by auto
    with Cons.IH [of b'] show ?thesis by simp
  qed
qed

lemma yamlMatch_Some:
  assumes "yamlMatch content = Some (yamlStr, rest)"
  shows "content = ''---\<newline>'' @ yamlStr @ ''\<newline>---'' @ rest"
proof -
  from assms have t: "take 4 content = ''---\<newline>''"
    and f: "findSub ''\<newline>---'' (drop 4 content) = Some (yamlStr, rest)"
    by (simp_all add: yamlMatch_def split: if_splits)
  have "content = take 4 content @ drop 4 content" by simp
  also have "\<dots> = ''---\<newline>'' @ yamlStr @ ''\<newline>---'' @ rest"
    using t findSub_Some [OF f] by simp
  finally show ?thesis .
qed

lemma matchInlineAt_tags: "matchInlineAt s = Some r \<Longrightarrow> take 4 s = ''tags''"
  by (simp add: matchInlineAt_def split: if_splits)

lemma trimStart_append:
  "s \<noteq> [] \<Longrightarrow> \<not> is_ws (hd s) \<Longrightarrow> trimStart (pre @ s) = trimStart pre @ s"
  unfolding trimStart_def by (induction pre) (auto simp: neq_Nil_conv)

lemma trimStart_decomp: "\<exists>ws. s = ws @ trimStart s \<and> (\<forall>c\<in>set ws. is_ws c)"
proof -
  have "s = takeWhile is_ws s @ trimStart s" by (simp add: trimStart_def)
  moreover have "\<forall>c\<in>set (takeWhile is_ws s). is_ws c" by (auto dest: set_takeWhileD)
  ultimately show ?thesis by blast
qed

lemma captureLine_Some: "captureLine s = Some (cap, r) \<Longrightarrow> s = cap @ r"
  by (auto simp: captureLine_def Let_def dropWhile_eq_drop [symmetric] split: if_splits)

lemma captureBack_Some: "captureBack k s = Some (cap, r) \<Longrightarrow> \<exists>pre. s = pre @ cap @ r"
proof (induction k)
  case 0
  then show ?case using captureLine_Some [of s cap r] by auto
next
  case (Suc k)
  show ?case
  proof (cases "captureLine (drop (Suc k) s)")
    case None
    with Suc show ?thesis by simp
  next
    case (Some x)
    with Suc.prems have "captureLine (drop (Suc k) s) = Some (cap, r)" by simp
    then have "drop (Suc k) s = cap @ r" by (rule captureLine_Some)
    then have "s = take (Suc k) s @ cap @ r"
      by (metis append_take_drop_id)
    then show ?thesis by blast
  qed
qed

lemma captureAfterWs_Some: "captureAfterWs s = Some (cap, r) \<Longrightarrow> \<exists>pre. s = pre @ cap @ r"
  unfolding captureAfterWs_def by (rule captureBack_Some)

lemma matchInlineAt_Some:
  assumes "matchInlineAt s = Some (cap, r)"
  shows "\<exists>pre. s = ''tags'' @ pre @ cap @ r"
proof -
  from assms have t: "take 4 s = ''tags''" by (rule matchInlineAt_tags)
  then have s: "s = ''tags'' @ drop 4 s" by (metis append_take_drop_id)
  define w where "w = dropWhile is_ws (drop 4 s)"
  have d: "drop 4 s = takeWhile is_ws (drop 4 s) @ w" by (simp add: w_def)
  from assms t obtain x where x: "w = CHR '':'' # x"
    and m: "captureAfterWs x = Some (cap, r) \<or> (\<exists>y. x = CHR '':'' # y \<and> captureAfterWs y = Some (cap, r))"
    unfolding matchInlineAt_def w_def [symmetric]
    by (auto split: list.splits if_splits option.splits)
  from m obtain pre where "x = pre @ cap @ r"
  proof
    assume "captureAfterWs x = Some (cap, r)"
    then show ?thesis using captureAfterWs_Some that by blast
  next
    assume "\<exists>y. x = CHR '':'' # y \<and> captureAfterWs y = Some (cap, r)"
    then obtain y pre' where "x = CHR '':'' # y" "y = pre' @ cap @ r"
      using captureAfterWs_Some by blast
    then have "x = (CHR '':'' # pre') @ cap @ r" by simp
    then show ?thesis using that by blast
  qed
  with x d have "drop 4 s = (takeWhile is_ws (drop 4 s) @ CHR '':'' # pre) @ cap @ r" by simp
  with s show ?thesis by (metis append_assoc)
qed

lemma findInline_Some:
  "findInline bol s = Some (b, m, cap, a) \<Longrightarrow> s = b @ m @ a \<and> take 4 m = ''tags''"
proof (induction s arbitrary: bol b)
  case Nil
  then show ?case by simp
next
  case (Cons c cs)
  show ?case
  proof (cases "if bol then matchInlineAt (c # cs) else None")
    case None
    with Cons.prems obtain b' where "findInline (is_lt c) cs = Some (b', m, cap, a)" "b = c # b'"
      by auto
    with Cons.IH show ?thesis by auto
  next
    case (Some x)
    obtain cap' a' where x: "x = (cap', a')" by (cases x)
    with Some Cons.prems have b: "b = []" and m: "m = take (length (c # cs) - length a) (c # cs)"
      and e: "cap' = cap" "a' = a"
      by auto
    from Some x e have mi: "matchInlineAt (c # cs) = Some (cap, a)" by (simp split: if_splits)
    then obtain pre where p: "c # cs = ''tags'' @ pre @ cap @ a"
      using matchInlineAt_Some by blast
    have "length (c # cs) - length a = length (''tags'' @ pre @ cap)"
      by (subst p) simp
    then have "m = ''tags'' @ pre @ cap"
      unfolding m by (subst (2) p) (simp del: append.simps)
    with p b show ?thesis by simp
  qed
qed

lemma expandTemplate_plain:
  "CHR ''$'' \<notin> set t \<Longrightarrow> expandTemplate m b a cap t = t"
  by (induction m b a cap t rule: expandTemplate.induct) auto

section \<open>Derivation: the split-pair mode\<close>

text \<open>
  C8. In the mode \<open>2split\<close>, a path with at least two folder segments gives exactly two
  tags, the last folder first and its parent second, each between prefix and suffix; a
  path with exactly one folder segment gives the one tag of the last folder, which is what
  the mode \<open>1\<close> gives for it.
\<close>

lemma nth_last_but_one:
  assumes "length parts \<ge> 2"
  shows "parts ! (length parts - 2) = last (butlast parts)"
proof -
  from assms have ne2: "butlast parts \<noteq> []"
    by (cases parts) (auto split: if_splits)
  have "last (butlast parts) = butlast parts ! (length (butlast parts) - 1)"
    using ne2 by (simp add: last_conv_nth)
  also have "\<dots> = parts ! (length parts - 2)"
    using assms by (simp add: nth_butlast numeral_2_eq_2)
  finally show ?thesis by simp
qed

theorem splitPair_derive:
  assumes "folderDepth st = Depth2split"
    and "butlast (split_js CHR ''/'' (np p)) = parts"
  shows "(length parts \<ge> 2 \<longrightarrow>
           getFolderTagsFromPath np st p =
             [tagPrefix st @ last parts @ tagSuffix st,
              tagPrefix st @ last (butlast parts) @ tagSuffix st])
       \<and> (length parts = 1 \<longrightarrow>
           getFolderTagsFromPath np st p = [tagPrefix st @ last parts @ tagSuffix st]
           \<and> getFolderTagsFromPath np st p
               = getFolderTagsFromPath np (st\<lparr>folderDepth := Depth1\<rparr>) p)"
proof (intro conjI impI)
  assume len: "length parts \<ge> 2"
  then have ne: "parts \<noteq> []" by auto
  have l1: "parts ! (length parts - 1) = last parts"
    using ne by (simp add: last_conv_nth)
  show "getFolderTagsFromPath np st p =
           [tagPrefix st @ last parts @ tagSuffix st,
            tagPrefix st @ last (butlast parts) @ tagSuffix st]"
    using assms len ne l1 nth_last_but_one [OF len]
    by (simp add: getFolderTagsFromPath_def Let_def)
next
  assume len: "length parts = 1"
  then have ne: "parts \<noteq> []" by auto
  have l1: "parts ! (length parts - 1) = last parts"
    using ne by (simp add: last_conv_nth)
  show "getFolderTagsFromPath np st p = [tagPrefix st @ last parts @ tagSuffix st]"
    using assms len ne l1 by (simp add: getFolderTagsFromPath_def Let_def)
  show "getFolderTagsFromPath np st p
          = getFolderTagsFromPath np (st\<lparr>folderDepth := Depth1\<rparr>) p"
    using assms len ne l1 by (simp add: getFolderTagsFromPath_def Let_def)
qed

theorem splitPair_derive_witness:
  "getFolderTagsFromPath (\<lambda>p. p)
     \<lparr> folderDepth = Depth2split, tagPrefix = ''f-'', tagSuffix = ''!'' \<rparr> ''a/b/c/n.md''
     = [''f-c!'', ''f-b!'']
   \<and> getFolderTagsFromPath (\<lambda>p. p)
     \<lparr> folderDepth = Depth2split, tagPrefix = ''f-'', tagSuffix = ''!'' \<rparr> ''c/n.md''
     = [''f-c!'']"
proof -
  have a: "butlast (split_js CHR ''/'' ''a/b/c/n.md'') = [''a'', ''b'', ''c'']" by simp
  have b: "butlast (split_js CHR ''/'' ''c/n.md'') = [''c'']" by simp
  show ?thesis
    using splitPair_derive [of "\<lparr> folderDepth = Depth2split, tagPrefix = ''f-'', tagSuffix = ''!'' \<rparr>"
        "\<lambda>p. p" "''a/b/c/n.md''" "[''a'', ''b'', ''c'']"]
      splitPair_derive [of "\<lparr> folderDepth = Depth2split, tagPrefix = ''f-'', tagSuffix = ''!'' \<rparr>"
        "\<lambda>p. p" "''c/n.md''" "[''c'']"] a b
    by simp
qed

section \<open>What a call of applyFolderTag leaves in the tag field\<close>

text \<open>
  C1, as the code has it. For a note that lies in a folder (its derived tags are not
  empty) and whose frontmatter is an object, \<open>applyFolderTag\<close> assigns to \<open>tags\<close> the
  list \<open>ts\<close> of lines 92-105, and: every derived tag is in \<open>ts\<close>, exactly once when it
  occurred at most once among the existing entries; a tag of the stale set that is not
  derived again is not in \<open>ts\<close>; and the entries of \<open>ts\<close> that are neither stale nor
  derived are the existing entries (read trimmed) that are neither, in their order.
\<close>

theorem apply_reconciles:
  assumes "front file = Some (FmObject kv)"
    and "getFolderTagsFromPath np st (path file) = folderTags"
    and "folderTags \<noteq> []"
    and "stale = staleTags np st act oldPath"
    and "ts = applyTagList np st act oldPath folderTags kv"
  shows "applyFolderTag np st file act oldPath =
           Inr (file\<lparr>front := Some (FmObject (AList.update ''tags'' (JArr (map JStr ts)) kv))\<rparr>)
       \<and> (\<forall>t\<in>set folderTags. t \<in> set ts
            \<and> (count_list (existingTagsOf kv) t \<le> 1 \<longrightarrow> count_list ts t = 1))
       \<and> (\<forall>t\<in>set stale. t \<notin> set folderTags \<longrightarrow> t \<notin> set ts)
       \<and> filter (\<lambda>t. t \<notin> set stale \<and> t \<notin> set folderTags) ts
           = filter (\<lambda>t. t \<notin> set stale \<and> t \<notin> set folderTags) (existingTagsOf kv)"
proof -
  define kept where "kept = filter (\<lambda>t. t \<notin> set stale) (existingTagsOf kv)"
  have ts: "ts = pushNew kept folderTags"
    using assms(4,5) by (simp add: applyTagList_stale kept_def)
  have 1: "applyFolderTag np st file act oldPath =
           Inr (file\<lparr>front := Some (FmObject (AList.update ''tags'' (JArr (map JStr ts)) kv))\<rparr>)"
    using applyFolderTag_object [OF assms(1-3)] assms(5) by simp
  have 2: "t \<in> set ts \<and> (count_list (existingTagsOf kv) t \<le> 1 \<longrightarrow> count_list ts t = 1)"
    if "t \<in> set folderTags" for t
  proof
    show "t \<in> set ts" using that by (simp add: ts pushNew_set)
    show "count_list (existingTagsOf kv) t \<le> 1 \<longrightarrow> count_list ts t = 1"
    proof
      assume le: "count_list (existingTagsOf kv) t \<le> 1"
      have "count_list kept t \<le> 1" using le by (simp add: kept_def count_list_filter)
      moreover have "t \<in> set kept \<Longrightarrow> count_list kept t \<noteq> 0"
        by (simp add: count_list_0_iff)
      ultimately show "count_list ts t = 1"
        using that by (auto simp: ts pushNew_count)
    qed
  qed
  have 3: "t \<notin> set ts" if "t \<in> set stale" "t \<notin> set folderTags" for t
    using that by (simp add: ts pushNew_set kept_def)
  have "filter (\<lambda>t. t \<notin> set stale \<and> t \<notin> set folderTags) ts
          = filter (\<lambda>t. t \<notin> set stale \<and> t \<notin> set folderTags) kept"
    by (simp add: ts pushNew_filter)
  also have "\<dots> = filter (\<lambda>t. t \<notin> set stale \<and> t \<notin> set folderTags) (existingTagsOf kv)"
    unfolding kept_def filter_filter by (rule filter_cong) auto
  finally have 4: "filter (\<lambda>t. t \<notin> set stale \<and> t \<notin> set folderTags) ts
          = filter (\<lambda>t. t \<notin> set stale \<and> t \<notin> set folderTags) (existingTagsOf kv)" .
  show ?thesis using 1 2 3 4 by blast
qed

theorem apply_reconciles_witness:
  "applyFolderTag (\<lambda>p. p) DEFAULT_SETTINGS
     \<lparr>path = ''personal/n.md'',
      front = Some (FmObject [(''tags'', JArr [JStr ''work'', JStr ''urgent'', JStr ''idea''])])\<rparr>
     Move (Some ''work/n.md'')
   = Inr \<lparr>path = ''personal/n.md'',
      front = Some (FmObject [(''tags'', JArr [JStr ''urgent'', JStr ''idea'', JStr ''personal''])])\<rparr>
   \<and> count_list [''urgent'', ''idea'', ''personal''] ''personal'' = 1
   \<and> ''work'' \<notin> set [''urgent'', ''idea'', ''personal'']
   \<and> filter (\<lambda>t. t \<notin> set [''work''] \<and> t \<notin> set [''personal'']) [''urgent'', ''idea'', ''personal'']
       = [''urgent'', ''idea'']"
proof -
  let ?file = "\<lparr>path = ''personal/n.md'',
      front = Some (FmObject [(''tags'', JArr [JStr ''work'', JStr ''urgent'', JStr ''idea''])])\<rparr>"
  let ?kv = "[(''tags'', JArr [JStr ''work'', JStr ''urgent'', JStr ''idea''])]"
  have a: "front ?file = Some (FmObject ?kv)" by simp
  have b: "getFolderTagsFromPath (\<lambda>p. p) DEFAULT_SETTINGS (path ?file) = [''personal'']"
    by (simp add: run_defs)
  have c: "[''personal''] \<noteq> ([] :: string list)" by simp
  have d: "[''work''] = staleTags (\<lambda>p. p) DEFAULT_SETTINGS Move (Some ''work/n.md'')"
    by (simp add: staleTags_def run_defs)
  have e: "[''urgent'', ''idea'', ''personal'']
             = applyTagList (\<lambda>p. p) DEFAULT_SETTINGS Move (Some ''work/n.md'') [''personal''] ?kv"
    by (simp add: run_defs)
  show ?thesis
    using apply_reconciles [OF a b c d e] by simp
qed

text \<open>
  Where the claim as it is written fails: an entry that the note holds twice stays twice
  after a create, and a rename inside one folder leaves the tag of the old path, which is
  the tag of the new path too.
\<close>

theorem apply_reconciles_counterexample:
  "applyFolderTag (\<lambda>p. p) DEFAULT_SETTINGS
     \<lparr>path = ''work/n.md'', front = Some (FmObject [(''tags'', JArr [JStr ''work'', JStr ''work''])])\<rparr>
     Create None
   = Inr \<lparr>path = ''work/n.md'',
          front = Some (FmObject [(''tags'', JArr [JStr ''work'', JStr ''work''])])\<rparr>
   \<and> count_list [''work'', ''work''] ''work'' = 2
   \<and> applyFolderTag (\<lambda>p. p) DEFAULT_SETTINGS
     \<lparr>path = ''work/b.md'', front = Some (FmObject [(''tags'', JArr [JStr ''work''])])\<rparr>
     Move (Some ''work/a.md'')
   = Inr \<lparr>path = ''work/b.md'', front = Some (FmObject [(''tags'', JArr [JStr ''work''])])\<rparr>
   \<and> getFolderTagsFromPath (\<lambda>p. p) DEFAULT_SETTINGS ''work/a.md'' = [''work'']"
  by (simp add: run_defs)

section \<open>A move strips the tags of the old path\<close>

text \<open>
  C2, as the code has it. Take a note with an object frontmatter and a \<open>tags\<close> key, moved
  into a folder (the tags derived from its new path are not empty), with a non-empty old
  path, and let no tag derived from the old or the new path begin or end with white
  space. \<open>entries\<close> are the existing entries as strings, before trimming. Then
  \<open>applyFolderTag\<close> writes the list \<open>ts\<close>: the trimmed entries that are not a tag derived
  from the old path under the current settings, in order, followed by the new derived tags
  that are not among them, each once. An entry that is a tag of the old path and not of
  the new one is gone, every entry whose trimmed form is not a tag of the old path is
  kept, and a new derived tag that the note already holds is not appended.
\<close>

theorem move_strips_old_tags:
  assumes "front file = Some (FmObject kv)"
    and "map_of kv ''tags'' = Some v"
    and "entries = (case v of JArr xs \<Rightarrow> map String_js xs
                            | JStr s \<Rightarrow> split_js CHR '','' s
                            | _ \<Rightarrow> [])"
    and "getFolderTagsFromPath np st (path file) = newTags"
    and "newTags \<noteq> []"
    and "old \<noteq> []"
    and "getFolderTagsFromPath np st old = oldTags"
    and "\<forall>t\<in>set oldTags \<union> set newTags. trim t = t"
    and "kept = filter (\<lambda>t. t \<notin> set oldTags) (map trim entries)"
    and "ts = pushNew kept newTags"
  shows "applyFolderTag np st file Move (Some old) =
           Inr (file\<lparr>front := Some (FmObject (AList.update ''tags'' (JArr (map JStr ts)) kv))\<rparr>)
       \<and> (\<exists>news. ts = kept @ news \<and> distinct news \<and> set news = set newTags - set kept)
       \<and> (\<forall>e\<in>set entries. e \<in> set oldTags \<and> e \<notin> set newTags \<longrightarrow> trim e \<notin> set ts)
       \<and> (\<forall>e\<in>set entries. trim e \<notin> set oldTags \<longrightarrow> trim e \<in> set kept)
       \<and> (\<forall>t\<in>set newTags. t \<in> set entries \<and> t \<notin> set oldTags \<longrightarrow> t \<in> set kept)"
proof -
  have ex: "existingTagsOf kv = map trim entries"
    using assms(2,3) by (cases v) (simp_all add: existingTagsOf_def)
  have "applyTagList np st Move (Some old) newTags kv = ts"
    using assms(6,7,9,10) ex by (simp add: applyTagList_def Let_def)
  then have 1: "applyFolderTag np st file Move (Some old) =
           Inr (file\<lparr>front := Some (FmObject (AList.update ''tags'' (JArr (map JStr ts)) kv))\<rparr>)"
    using applyFolderTag_object [OF assms(1,4,5), of Move "Some old"] by simp
  have 2: "\<exists>news. ts = kept @ news \<and> distinct news \<and> set news = set newTags - set kept"
    unfolding assms(10) by (rule pushNew_split)
  have 3: "trim e \<notin> set ts" if "e \<in> set entries" "e \<in> set oldTags \<and> e \<notin> set newTags" for e
  proof -
    from that(2) assms(8) have "trim e = e" by simp
    with that(2) show ?thesis by (simp add: assms(9,10) pushNew_set)
  qed
  have 4: "trim e \<in> set kept" if "e \<in> set entries" "trim e \<notin> set oldTags" for e
    using that by (simp add: assms(9))
  have 5: "t \<in> set kept" if "t \<in> set newTags" "t \<in> set entries \<and> t \<notin> set oldTags" for t
  proof -
    from that(1) assms(8) have "trim t = t" by simp
    with that(2) have "t \<in> trim ` set entries" by force
    with that(2) show ?thesis by (simp add: assms(9))
  qed
  show ?thesis using 1 2 3 4 5 by blast
qed

theorem move_strips_old_tags_witness:
  "applyFolderTag (\<lambda>p. p) DEFAULT_SETTINGS
     \<lparr>path = ''personal/n.md'',
      front = Some (FmObject [(''tags'', JArr [JStr ''work'', JStr ''urgent''])])\<rparr>
     Move (Some ''work/n.md'')
   = Inr \<lparr>path = ''personal/n.md'',
          front = Some (FmObject [(''tags'', JArr [JStr ''urgent'', JStr ''personal''])])\<rparr>"
proof -
  let ?v = "JArr [JStr ''work'', JStr ''urgent'']"
  let ?kv = "[(''tags'', ?v)]"
  let ?file = "\<lparr>path = ''personal/n.md'', front = Some (FmObject ?kv)\<rparr>"
  have a: "front ?file = Some (FmObject ?kv)" by simp
  have b: "map_of ?kv ''tags'' = Some ?v" by simp
  have c: "[''work'', ''urgent''] =
      (case ?v of JArr xs \<Rightarrow> map String_js xs | JStr s \<Rightarrow> split_js CHR '','' s | _ \<Rightarrow> [])"
    by simp
  have d: "getFolderTagsFromPath (\<lambda>p. p) DEFAULT_SETTINGS (path ?file) = [''personal'']"
    by (simp add: run_defs)
  have e: "[''personal''] \<noteq> ([] :: string list)" by simp
  have f: "''work/n.md'' \<noteq> []" by simp
  have g: "getFolderTagsFromPath (\<lambda>p. p) DEFAULT_SETTINGS ''work/n.md'' = [''work'']"
    by (simp add: run_defs)
  have h: "\<forall>t\<in>set [''work''] \<union> set [''personal'']. trim t = t"
    by (simp add: trim_def is_ws_def)
  have i: "[''urgent''] = filter (\<lambda>t. t \<notin> set [''work'']) (map trim [''work'', ''urgent''])"
    by (simp add: trim_def is_ws_def)
  have j: "[''urgent'', ''personal''] = pushNew [''urgent''] [''personal'']" by simp
  show ?thesis
    using move_strips_old_tags [OF a b c d e f g h i j] by simp
qed

text \<open>
  Where the claim as it is written fails: a note moved out of the folder \<open>work\<close> to the
  root of the vault has no derived tag, \<open>applyFolderTag\<close> returns at its first check,
  and the tag \<open>work\<close> of the old path stays.
\<close>

theorem move_strips_old_tags_counterexample:
  "getFolderTagsFromPath (\<lambda>p. p) DEFAULT_SETTINGS ''work/n.md'' = [''work'']
   \<and> applyFolderTag (\<lambda>p. p) DEFAULT_SETTINGS
       \<lparr>path = ''n.md'',
        front = Some (FmObject [(''tags'', JArr [JStr ''work'', JStr ''urgent''])])\<rparr>
       Move (Some ''work/n.md'')
     = Inr \<lparr>path = ''n.md'',
            front = Some (FmObject [(''tags'', JArr [JStr ''work'', JStr ''urgent''])])\<rparr>"
  by (simp add: run_defs)

section \<open>The bulk rerun\<close>

text \<open>
  C3, as the code has it. The bulk rerun calls \<open>applyFolderTag\<close> with the action
  \<open>rerun\<close> and no old path. For every note of the pass that lies in a folder and has an
  object frontmatter: each tag derived from its path under the current settings is in the
  tag field afterwards, and every existing entry that is not one of these derived tags
  stays, in order; so a tag that an earlier configuration produced stays too.
\<close>

theorem rerun_keeps_other_tags:
  assumes "i < length files"
    and "front (files ! i) = Some (FmObject kv)"
    and "getFolderTagsFromPath np st (path (files ! i)) = folderTags"
    and "folderTags \<noteq> []"
    and "ts = pushNew (existingTagsOf kv) folderTags"
  shows "fst (reapplyAll np st files) ! i =
           (files ! i)\<lparr>front := Some (FmObject (AList.update ''tags'' (JArr (map JStr ts)) kv))\<rparr>
       \<and> set folderTags \<subseteq> set ts
       \<and> filter (\<lambda>t. t \<notin> set folderTags) ts
           = filter (\<lambda>t. t \<notin> set folderTags) (existingTagsOf kv)"
proof -
  have "applyTagList np st Rerun None folderTags kv = ts"
    using assms(5) by (simp add: applyTagList_def)
  then have "applyFolderTag np st (files ! i) Rerun None =
      Inr ((files ! i)\<lparr>front := Some (FmObject (AList.update ''tags'' (JArr (map JStr ts)) kv))\<rparr>)"
    using applyFolderTag_object [OF assms(2-4), of Rerun None] by simp
  then have "fst (reapplyAll np st files) ! i =
           (files ! i)\<lparr>front := Some (FmObject (AList.update ''tags'' (JArr (map JStr ts)) kv))\<rparr>"
    using reapplyLoop_nth [OF assms(1), of np st] by (simp add: reapplyAll_def)
  moreover have "set folderTags \<subseteq> set ts"
    using assms(5) by (simp add: pushNew_set)
  moreover have "filter (\<lambda>t. t \<notin> set folderTags) ts
           = filter (\<lambda>t. t \<notin> set folderTags) (existingTagsOf kv)"
    using assms(5) by (simp add: pushNew_filter)
  ultimately show ?thesis by simp
qed

theorem rerun_keeps_other_tags_witness:
  "fst (reapplyAll (\<lambda>p. p) \<lparr> folderDepth = Depth1, tagPrefix = ''f-'', tagSuffix = [] \<rparr>
     [\<lparr>path = ''work/n.md'',
       front = Some (FmObject [(''tags'', JArr [JStr ''work'', JStr ''zeta''])])\<rparr>]) ! 0
   = \<lparr>path = ''work/n.md'',
      front = Some (FmObject [(''tags'', JArr [JStr ''work'', JStr ''zeta'', JStr ''f-work''])])\<rparr>"
proof -
  let ?st = "\<lparr> folderDepth = Depth1, tagPrefix = ''f-'', tagSuffix = [] \<rparr>"
  let ?kv = "[(''tags'', JArr [JStr ''work'', JStr ''zeta''])]"
  let ?files = "[\<lparr>path = ''work/n.md'', front = Some (FmObject ?kv)\<rparr>]"
  have a: "0 < length ?files" by simp
  have b: "front (?files ! 0) = Some (FmObject ?kv)" by simp
  have c: "getFolderTagsFromPath (\<lambda>p. p) ?st (path (?files ! 0)) = [''f-work'']"
    by (simp add: run_defs)
  have d: "[''f-work''] \<noteq> ([] :: string list)" by simp
  have e: "[''work'', ''zeta'', ''f-work''] = pushNew (existingTagsOf ?kv) [''f-work'']"
    by (simp add: run_defs)
  show ?thesis
    using rerun_keeps_other_tags [OF a b c d e] by simp
qed

text \<open>
  Where the claim as it is written fails. With the prefix changed from empty to \<open>f-\<close>, the
  rerun leaves the tag \<open>work\<close> of the earlier configuration in place. And nothing is
  stripped: a note that holds the derived tag before another entry is left as it is, while
  the same call with the current path as old path, which the pass does not make, strips
  the derived tag and appends it at the end.
\<close>

theorem rerun_keeps_other_tags_counterexample:
  "reapplyAll (\<lambda>p. p) \<lparr> folderDepth = Depth1, tagPrefix = ''f-'', tagSuffix = [] \<rparr>
     [\<lparr>path = ''work/n.md'', front = Some (FmObject [(''tags'', JArr [JStr ''work''])])\<rparr>,
      \<lparr>path = ''work/m.md'',
       front = Some (FmObject [(''tags'', JArr [JStr ''f-work'', JStr ''zeta''])])\<rparr>]
   = ([\<lparr>path = ''work/n.md'',
        front = Some (FmObject [(''tags'', JArr [JStr ''work'', JStr ''f-work''])])\<rparr>,
       \<lparr>path = ''work/m.md'',
        front = Some (FmObject [(''tags'', JArr [JStr ''f-work'', JStr ''zeta''])])\<rparr>],
      [''Updating all notes...'', ''Folder tags updated for all notes!''])
   \<and> applyFolderTag (\<lambda>p. p) \<lparr> folderDepth = Depth1, tagPrefix = ''f-'', tagSuffix = [] \<rparr>
       \<lparr>path = ''work/m.md'',
        front = Some (FmObject [(''tags'', JArr [JStr ''f-work'', JStr ''zeta''])])\<rparr>
       Rerun (Some ''work/m.md'')
     = Inr \<lparr>path = ''work/m.md'',
            front = Some (FmObject [(''tags'', JArr [JStr ''zeta'', JStr ''f-work''])])\<rparr>"
  by (simp add: run_defs reapplyAll_def)

section \<open>The representation that is written back\<close>

text \<open>
  C5, as the code has it. In main.ts, for a note that lies in a folder and whose
  frontmatter is an object, \<open>applyFolderTag\<close> always leaves under \<open>tags\<close> a list of
  strings, whatever was read and whatever the action: the entries of a list, coerced and
  trimmed; the trimmed pieces between the commas of a string, which is thereby replaced by
  a list; nothing when the key is absent or holds another kind of value. Every other key
  keeps its value.
  In the revision that edits the text, for a note that lies in a folder and has no
  frontmatter block: on an action \<open>tact\<close> other than a create, or with
  \<open>overrideExisting\<close> set, a matching inline line is replaced by the expansion of
  \<open>newLine\<close>, which is \<open>tags:: \<close> followed by the tags joined with a comma and a space;
  when \<open>newLine\<close> holds no dollar sign, the expansion is \<open>newLine\<close> itself. And for every
  action \<open>bact\<close>, where neither a block nor a line is found, a new block that lists the
  derived tags is put in front of the text.
\<close>

theorem apply_write_back:
  assumes "front file = Some (FmObject kv)"
    and "getFolderTagsFromPath np st (path file) = folderTags"
    and "folderTags \<noteq> []"
    and "kv' = AList.update ''tags''
                 (JArr (map JStr (applyTagList np st act oldPath folderTags kv))) kv"
    and "getFolderTags_text tst p = textTags"
    and "textTags \<noteq> []"
    and "tact \<noteq> Create \<or> overrideExisting tst"
    and "yamlMatch content = None"
    and "findInline True content = Some (b, m, cap, a)"
    and "newLine = ''tags:: '' @ join_js '', '' (inlineTagList tact toldPath textTags cap)"
    and "yamlMatch bare = None"
    and "findInline True bare = None"
  shows "applyFolderTag np st file act oldPath = Inr (file\<lparr>front := Some (FmObject kv')\<rparr>)
       \<and> map_of kv' ''tags'' = Some (JArr (map JStr (applyTagList np st act oldPath folderTags kv)))
       \<and> (\<forall>k. k \<noteq> ''tags'' \<longrightarrow> map_of kv' k = map_of kv k)
       \<and> (\<forall>xs. map_of kv ''tags'' = Some (JArr xs) \<longrightarrow>
             existingTagsOf kv = map (\<lambda>t. trim (String_js t)) xs)
       \<and> (\<forall>s. map_of kv ''tags'' = Some (JStr s) \<longrightarrow>
             existingTagsOf kv = map trim (split_js CHR '','' s))
       \<and> (map_of kv ''tags'' = None \<longrightarrow> existingTagsOf kv = [])
       \<and> content = b @ m @ a
       \<and> applyFolderTag_text load dump tst p content tact toldPath
           = b @ expandTemplate m b a cap newLine @ a
       \<and> (CHR ''$'' \<notin> set newLine \<longrightarrow>
            applyFolderTag_text load dump tst p content tact toldPath = b @ newLine @ a)
       \<and> applyFolderTag_text load dump tst p bare bact boldPath
           = ''---\<newline>tags:\<newline>'' @ join_js ''\<newline>'' (map (\<lambda>t. ''  - '' @ t) textTags)
               @ ''\<newline>---\<newline>'' @ trimStart bare"
proof -
  have 1: "applyFolderTag np st file act oldPath = Inr (file\<lparr>front := Some (FmObject kv')\<rparr>)"
    using applyFolderTag_object [OF assms(1-3)] assms(4) by simp
  have "map_of kv' = (map_of kv)(''tags'' \<mapsto>
      JArr (map JStr (applyTagList np st act oldPath folderTags kv)))"
    unfolding assms(4) by (rule update_conv')
  then have 2: "map_of kv' ''tags'' = Some (JArr (map JStr (applyTagList np st act oldPath folderTags kv)))"
    and 3: "\<forall>k. k \<noteq> ''tags'' \<longrightarrow> map_of kv' k = map_of kv k"
    by simp_all
  have 4: "\<forall>xs. map_of kv ''tags'' = Some (JArr xs) \<longrightarrow>
             existingTagsOf kv = map (\<lambda>t. trim (String_js t)) xs"
    and 5: "\<forall>s. map_of kv ''tags'' = Some (JStr s) \<longrightarrow>
             existingTagsOf kv = map trim (split_js CHR '','' s)"
    and 6: "map_of kv ''tags'' = None \<longrightarrow> existingTagsOf kv = []"
    by (simp_all add: existingTagsOf_def)
  have 7: "content = b @ m @ a"
    using findInline_Some [OF assms(9)] by simp
  have 8: "applyFolderTag_text load dump tst p content tact toldPath
           = b @ expandTemplate m b a cap newLine @ a"
    using assms(5-10)
    by (simp add: applyFolderTag_text_def applyInline_text_def replaceInline_def Let_def)
  have 9: "CHR ''$'' \<notin> set newLine \<longrightarrow>
            applyFolderTag_text load dump tst p content tact toldPath = b @ newLine @ a"
    using 8 by (simp add: expandTemplate_plain)
  have 10: "applyFolderTag_text load dump tst p bare bact boldPath
           = ''---\<newline>tags:\<newline>'' @ join_js ''\<newline>'' (map (\<lambda>t. ''  - '' @ t) textTags)
               @ ''\<newline>---\<newline>'' @ trimStart bare"
    using assms(5,6,11,12)
    by (simp add: applyFolderTag_text_def applyInline_text_def Let_def del: append.simps)
  show ?thesis using 1 2 3 4 5 6 7 8 9 10 by blast
qed

theorem apply_write_back_witness:
  "applyFolderTag (\<lambda>p. p) DEFAULT_SETTINGS
     \<lparr>path = ''work/n.md'',
      front = Some (FmObject [(''title'', JStr ''T''), (''tags'', JArr [JStr ''urgent''])])\<rparr>
     Create None
   = Inr \<lparr>path = ''work/n.md'',
      front = Some (FmObject [(''title'', JStr ''T''),
                (''tags'', JArr [JStr ''urgent'', JStr ''work''])])\<rparr>
   \<and> applyFolderTag_text (\<lambda>s. None) (\<lambda>kv. []) DEFAULT_SETTINGS_text ''work/n.md''
       ''Title\<newline>tags: urgent ,idea\<newline>Body'' Rerun None
     = ''Title\<newline>tags:: urgent, idea, work\<newline>Body''
   \<and> applyFolderTag_text (\<lambda>s. None) (\<lambda>kv. []) DEFAULT_SETTINGS_text ''work/n.md''
       '' Body'' Create None
     = ''---\<newline>tags:\<newline>  - work\<newline>---\<newline>Body''"
proof -
  let ?kv = "[(''title'', JStr ''T''), (''tags'', JArr [JStr ''urgent''])]"
  let ?file = "\<lparr>path = ''work/n.md'', front = Some (FmObject ?kv)\<rparr>"
  let ?content = "''Title\<newline>tags: urgent ,idea\<newline>Body''"
  have a: "front ?file = Some (FmObject ?kv)" by simp
  have b: "getFolderTagsFromPath (\<lambda>p. p) DEFAULT_SETTINGS (path ?file) = [''work'']"
    by (simp add: run_defs)
  have c: "[''work''] \<noteq> ([] :: string list)" by simp
  have d: "[(''title'', JStr ''T''), (''tags'', JArr [JStr ''urgent'', JStr ''work''])]
      = AList.update ''tags''
          (JArr (map JStr (applyTagList (\<lambda>p. p) DEFAULT_SETTINGS Create None [''work''] ?kv))) ?kv"
    by (simp add: run_defs)
  have e: "getFolderTags_text DEFAULT_SETTINGS_text ''work/n.md'' = [''work'']"
    by (simp add: text_defs)
  have f: "Rerun \<noteq> Create \<or> overrideExisting DEFAULT_SETTINGS_text" by simp
  have g: "yamlMatch ?content = None" by (simp add: yamlMatch_def)
  have h: "findInline True ?content
      = Some (''Title\<newline>'', ''tags: urgent ,idea'', ''urgent ,idea'', ''\<newline>Body'')"
    by (simp add: text_defs)
  have i: "''tags:: urgent, idea, work''
      = ''tags:: '' @ join_js '', '' (inlineTagList Rerun None [''work''] ''urgent ,idea'')"
    by (simp add: text_defs)
  have j: "yamlMatch '' Body'' = None" by (simp add: yamlMatch_def)
  have k: "findInline True '' Body'' = None" by (simp add: text_defs)
  show ?thesis
    using apply_write_back [OF a b c d e c f g h i j k,
        of "\<lambda>s. None" "\<lambda>kv. []" Create None]
    by (simp add: trimStart_def is_ws_def)
qed

text \<open>
  Where the claim as it is written fails: tags read from a comma-separated string are
  written back as a list, not as a string.
\<close>

theorem apply_write_back_counterexample:
  "applyFolderTag (\<lambda>p. p) DEFAULT_SETTINGS
     \<lparr>path = ''work/n.md'', front = Some (FmObject [(''tags'', JStr ''urgent, idea'')])\<rparr>
     Create None
   = Inr \<lparr>path = ''work/n.md'',
      front = Some (FmObject [(''tags'', JArr [JStr ''urgent'', JStr ''idea'', JStr ''work''])])\<rparr>"
  by (simp add: run_defs)

section \<open>Existing entries are rewritten trimmed\<close>

text \<open>
  C10. Whenever \<open>applyFolderTag\<close> or \<open>removeFolderTags\<close> reaches its callback on an object
  that has a \<open>tags\<close> key (the note lies in a folder), the existing entries are first
  coerced to strings (\<open>entries\<close>: \<open>String\<close> of each element of a list, the pieces between
  the commas of a string) and trimmed. What is written holds only trimmed entries and, for
  \<open>applyFolderTag\<close>, derived tags: every written entry that is not a derived tag is
  \<open>trim e\<close> for an existing entry \<open>e\<close>, every existing entry whose trimmed form is not
  stale is written as its trimmed form, and a trimmed entry neither begins nor ends with
  white space. \<open>removeFolderTags\<close> writes the trimmed entries that are not derived tags, or
  deletes the key when none is left.
\<close>

theorem entries_written_trimmed:
  assumes "front file = Some (FmObject kv)"
    and "getFolderTagsFromPath np st (path file) = folderTags"
    and "folderTags \<noteq> []"
    and "map_of kv ''tags'' = Some v"
    and "entries = (case v of JArr xs \<Rightarrow> map String_js xs
                            | JStr s \<Rightarrow> split_js CHR '','' s
                            | _ \<Rightarrow> [])"
    and "ts = applyTagList np st act oldPath folderTags kv"
    and "rs = filter (\<lambda>t. t \<notin> set folderTags) (map trim entries)"
  shows "applyFolderTag np st file act oldPath =
           Inr (file\<lparr>front := Some (FmObject (AList.update ''tags'' (JArr (map JStr ts)) kv))\<rparr>)
       \<and> set ts \<subseteq> trim ` set entries \<union> set folderTags
       \<and> (\<forall>e\<in>set entries. trim e \<notin> set (staleTags np st act oldPath) \<longrightarrow> trim e \<in> set ts)
       \<and> (\<forall>e\<in>set entries. trim e = [] \<or> (\<not> is_ws (hd (trim e)) \<and> \<not> is_ws (last (trim e))))
       \<and> removeFolderTags np st file =
           Inr (file\<lparr>front := Some (if rs = [] then FmObject (AList.delete ''tags'' kv)
                  else FmObject (AList.update ''tags'' (JArr (map JStr rs)) kv))\<rparr>)"
proof -
  have ex: "existingTagsOf kv = map trim entries"
    using assms(4,5) by (cases v) (simp_all add: existingTagsOf_def)
  have ts: "ts = pushNew (filter (\<lambda>t. t \<notin> set (staleTags np st act oldPath)) (map trim entries))
                   folderTags"
    using assms(6) ex by (simp add: applyTagList_stale)
  have 1: "applyFolderTag np st file act oldPath =
           Inr (file\<lparr>front := Some (FmObject (AList.update ''tags'' (JArr (map JStr ts)) kv))\<rparr>)"
    using applyFolderTag_object [OF assms(1-3)] assms(6) by simp
  have 2: "set ts \<subseteq> trim ` set entries \<union> set folderTags"
    by (auto simp: ts pushNew_set)
  have 3: "\<forall>e\<in>set entries. trim e \<notin> set (staleTags np st act oldPath) \<longrightarrow> trim e \<in> set ts"
    by (auto simp: ts pushNew_set)
  have 4: "\<forall>e\<in>set entries. trim e = [] \<or> (\<not> is_ws (hd (trim e)) \<and> \<not> is_ws (last (trim e)))"
    using trim_stripped by blast
  have 5: "removeFolderTags np st file =
           Inr (file\<lparr>front := Some (if rs = [] then FmObject (AList.delete ''tags'' kv)
                  else FmObject (AList.update ''tags'' (JArr (map JStr rs)) kv))\<rparr>)"
    using assms(1-3,7) ex
    by (simp add: removeFolderTags_def getFolderTags_def processFrontMatter_def
        removeMutator_def Let_def)
  show ?thesis using 1 2 3 4 5 by blast
qed

theorem entries_written_trimmed_witness:
  "applyFolderTag (\<lambda>p. p) DEFAULT_SETTINGS
     \<lparr>path = ''work/n.md'',
      front = Some (FmObject [(''tags'', JArr [JStr '' urgent  '', JNum ''2024'', JStr ''work''])])\<rparr>
     Create None
   = Inr \<lparr>path = ''work/n.md'',
      front = Some (FmObject [(''tags'', JArr [JStr ''urgent'', JStr ''2024'', JStr ''work''])])\<rparr>
   \<and> removeFolderTags (\<lambda>p. p) DEFAULT_SETTINGS
     \<lparr>path = ''work/n.md'',
      front = Some (FmObject [(''tags'', JArr [JStr '' urgent  '', JNum ''2024'', JStr ''work''])])\<rparr>
   = Inr \<lparr>path = ''work/n.md'',
      front = Some (FmObject [(''tags'', JArr [JStr ''urgent'', JStr ''2024''])])\<rparr>"
proof -
  let ?v = "JArr [JStr '' urgent  '', JNum ''2024'', JStr ''work'']"
  let ?kv = "[(''tags'', ?v)]"
  let ?file = "\<lparr>path = ''work/n.md'', front = Some (FmObject ?kv)\<rparr>"
  have a: "front ?file = Some (FmObject ?kv)" by simp
  have b: "getFolderTagsFromPath (\<lambda>p. p) DEFAULT_SETTINGS (path ?file) = [''work'']"
    by (simp add: run_defs)
  have c: "[''work''] \<noteq> ([] :: string list)" by simp
  have d: "map_of ?kv ''tags'' = Some ?v" by simp
  have e: "['' urgent  '', ''2024'', ''work''] =
      (case ?v of JArr xs \<Rightarrow> map String_js xs | JStr s \<Rightarrow> split_js CHR '','' s | _ \<Rightarrow> [])"
    by code_simp
  have f: "[''urgent'', ''2024'', ''work'']
      = applyTagList (\<lambda>p. p) DEFAULT_SETTINGS Create None [''work''] ?kv"
    by code_simp
  have g: "[''urgent'', ''2024''] =
      filter (\<lambda>t. t \<notin> set [''work'']) (map trim ['' urgent  '', ''2024'', ''work''])"
    by (simp add: run_defs)
  show ?thesis
    using entries_written_trimmed [OF a b c d e f g] by simp
qed

section \<open>A frontmatter block and an inline line in one note\<close>

text \<open>
  What the revision that edits the text does where its frontmatter branch is taken. Let
  the text of a note that lies in a folder begin with a frontmatter block, and let its
  body hold a line \<open>ln\<close> that matches the inline pattern. \<open>obj\<close> is what the block parses
  to, the empty object where \<open>jsyaml.load\<close> throws. When the action is not a create, or
  \<open>overrideExisting\<close> is set, \<open>applyFolderTag\<close> writes the block again from \<open>obj\<close> with
  only the key \<open>tags\<close> changed, drops the white space in front of the body, and leaves the
  inline line and all that follows it as they were; \<open>removeFolderTags\<close> does the same.
\<close>

lemma block_rewritten_inline_kept:
  assumes "yamlMatch content = Some (yamlStr, rest)"
    and "rest = pre @ ln @ post"
    and "pre \<noteq> [] \<and> is_lt (last pre)"
    and "matchInlineAt (ln @ post) = Some (cap, post)"
    and "obj = (case load yamlStr of Some parsed \<Rightarrow> parsed | None \<Rightarrow> [])"
    and "getFolderTags_text st p = folderTags"
    and "folderTags \<noteq> []"
    and "act \<noteq> Create \<or> overrideExisting st"
    and "obj' = AList.update ''tags'' (JArr (yamlTagList act oldPath folderTags obj)) obj"
    and "obj'' = (case map_of obj ''tags'' of
                    Some (JArr xs) \<Rightarrow>
                      AList.update ''tags'' (JArr (filter (\<lambda>t. t \<notin> JStr ` set folderTags) xs)) obj
                  | _ \<Rightarrow> obj)"
  shows "content = ''---\<newline>'' @ yamlStr @ ''\<newline>---'' @ pre @ ln @ post
       \<and> applyFolderTag_text load dump st p content act oldPath
           = ''---\<newline>'' @ trim (dump obj') @ ''\<newline>---\<newline>'' @ trimStart pre @ ln @ post
       \<and> removeFolderTags_text load dump st p content
           = ''---\<newline>'' @ trim (dump obj'') @ ''\<newline>---\<newline>'' @ trimStart pre @ ln @ post
       \<and> (\<forall>k. k \<noteq> ''tags'' \<longrightarrow> map_of obj' k = map_of obj k \<and> map_of obj'' k = map_of obj k)"
proof -
  have c: "content = ''---\<newline>'' @ yamlStr @ ''\<newline>---'' @ pre @ ln @ post"
    using yamlMatch_Some [OF assms(1)] assms(2) by simp
  have "take 4 (ln @ post) = ''tags''"
    using assms(4) by (rule matchInlineAt_tags)
  then have "ln @ post \<noteq> []" and "hd (ln @ post) = CHR ''t''"
    by (cases "ln @ post"; simp)+
  then have "ln @ post \<noteq> []" and "\<not> is_ws (hd (ln @ post))"
    by (simp_all add: is_ws_def)
  then have body: "trimStart rest = trimStart pre @ ln @ post"
    using trimStart_append [of "ln @ post" pre] assms(2) by simp
  have a: "applyFolderTag_text load dump st p content act oldPath
           = ''---\<newline>'' @ trim (dump obj') @ ''\<newline>---\<newline>'' @ trimStart pre @ ln @ post"
    using assms(1,6-9) body assms(5) [symmetric]
    by (simp add: applyFolderTag_text_def Let_def)
  have r: "removeFolderTags_text load dump st p content
           = ''---\<newline>'' @ trim (dump obj'') @ ''\<newline>---\<newline>'' @ trimStart pre @ ln @ post"
    using assms(1,6,7,10) body assms(5) [symmetric]
    by (simp add: removeFolderTags_text_def Let_def split: option.splits jsval.splits)
  have k1: "map_of obj' k = map_of obj k" if "k \<noteq> ''tags''" for k
    using that unfolding assms(9) by (simp add: update_conv')
  have k2: "map_of obj'' k = map_of obj k" if "k \<noteq> ''tags''" for k
    using that unfolding assms(10)
    by (simp add: update_conv' split: option.splits jsval.splits)
  show ?thesis using c a r k1 k2 by blast
qed

text \<open>
  C9 at inputs where it fails, in the revision that edits the text. Both notes begin with
  a frontmatter block and hold an inline line; \<open>jsyaml.load\<close> parses the block
  \<open>title: T\<close> and throws on any other, \<open>jsyaml.dump\<close> prints one line for each key.
  On a create with \<open>overrideExisting\<close> unset, the block is neither read nor written: the
  call reaches the branch for a note without tags and puts a second block in front of the
  first. On a rerun of a note whose block does not parse, the call goes on with an empty
  object and writes a block that holds the key \<open>tags\<close> alone: the other keys are lost.
  The inline line stays as it was in both.
\<close>

theorem block_not_reconciled:
  "yamlMatch ''---\<newline>title: T\<newline>---\<newline>tags:: urgent''
     = Some (''title: T'', ''\<newline>tags:: urgent'')
   \<and> applyFolderTag_text
     (\<lambda>s. if s = ''title: T'' then Some [(''title'', JStr ''T'')] else None)
     (\<lambda>kv. join_js ''\<newline>'' (map (\<lambda>(k, v). k @ '': '' @ String_js v) kv))
     DEFAULT_SETTINGS_text ''work/n.md''
     ''---\<newline>title: T\<newline>---\<newline>tags:: urgent'' Create None
   = ''---\<newline>tags:\<newline>  - work\<newline>---\<newline>---\<newline>title: T\<newline>---\<newline>tags:: urgent''
   \<and> yamlMatch ''---\<newline>title: [T\<newline>---\<newline>tags:: urgent''
     = Some (''title: [T'', ''\<newline>tags:: urgent'')
   \<and> applyFolderTag_text
     (\<lambda>s. if s = ''title: T'' then Some [(''title'', JStr ''T'')] else None)
     (\<lambda>kv. join_js ''\<newline>'' (map (\<lambda>(k, v). k @ '': '' @ String_js v) kv))
     DEFAULT_SETTINGS_text ''work/n.md''
     ''---\<newline>title: [T\<newline>---\<newline>tags:: urgent'' Rerun None
   = ''---\<newline>tags: work\<newline>---\<newline>tags:: urgent''"
  by (simp add: text_defs)

theorem block_not_reconciled_witness:
  "applyFolderTag_text
     (\<lambda>s. if s = ''title: T'' then Some [(''title'', JStr ''T'')] else None)
     (\<lambda>kv. join_js ''\<newline>'' (map (\<lambda>(k, v). k @ '': '' @ String_js v) kv))
     DEFAULT_SETTINGS_text ''work/n.md''
     ''---\<newline>title: T\<newline>---\<newline>tags:: urgent'' Create None
   = ''---\<newline>tags:\<newline>  - work\<newline>---\<newline>---\<newline>title: T\<newline>---\<newline>tags:: urgent''
   \<and> applyFolderTag_text
     (\<lambda>s. if s = ''title: T'' then Some [(''title'', JStr ''T'')] else None)
     (\<lambda>kv. join_js ''\<newline>'' (map (\<lambda>(k, v). k @ '': '' @ String_js v) kv))
     DEFAULT_SETTINGS_text ''work/n.md''
     ''---\<newline>title: [T\<newline>---\<newline>tags:: urgent'' Rerun None
   = ''---\<newline>tags: work\<newline>---\<newline>tags:: urgent''"
  using block_not_reconciled by blast

section \<open>Stripping the last tag\<close>

text \<open>
  C4, as the code has it. In main.ts, for a note that lies in a folder and whose
  frontmatter is an object: when no entry is left after \<open>removeFolderTags\<close> has filtered
  out the derived tags, the key \<open>tags\<close> is deleted from the frontmatter, not written back
  as an empty list, and every other key keeps its value. In the revision that edits the
  text, for a note without a frontmatter block whose inline line holds nothing but derived
  tags: the line is not deleted, it is replaced by \<open>tags:: \<close> with no tag after it,
  and the text before and after the line stays.
\<close>

theorem strip_to_empty_deletes_key:
  assumes "front file = Some (FmObject kv)"
    and "getFolderTagsFromPath np st (path file) = folderTags"
    and "folderTags \<noteq> []"
    and "filter (\<lambda>t. t \<notin> set folderTags) (existingTagsOf kv) = []"
    and "yamlMatch content = None"
    and "findInline True content = Some (b, m, cap, a)"
    and "getFolderTags_text tst p = textTags"
    and "textTags \<noteq> []"
    and "filter (\<lambda>t. t \<notin> set textTags) (map trim (split_js CHR '','' cap)) = []"
  shows "removeFolderTags np st file
           = Inr (file\<lparr>front := Some (FmObject (AList.delete ''tags'' kv))\<rparr>)
       \<and> map_of (AList.delete ''tags'' kv) ''tags'' = None
       \<and> (\<forall>k. k \<noteq> ''tags'' \<longrightarrow> map_of (AList.delete ''tags'' kv) k = map_of kv k)
       \<and> content = b @ m @ a
       \<and> removeFolderTags_text load dump tst p content = b @ ''tags:: '' @ a"
proof -
  have 1: "removeFolderTags np st file
           = Inr (file\<lparr>front := Some (FmObject (AList.delete ''tags'' kv))\<rparr>)"
    using assms(1-4)
    by (simp add: removeFolderTags_def getFolderTags_def processFrontMatter_def
        removeMutator_def Let_def)
  have 2: "map_of (AList.delete ''tags'' kv) ''tags'' = None"
    by (simp add: delete_conv')
  have 3: "\<forall>k. k \<noteq> ''tags'' \<longrightarrow> map_of (AList.delete ''tags'' kv) k = map_of kv k"
    by (simp add: delete_conv')
  have 4: "content = b @ m @ a"
    using findInline_Some [OF assms(6)] by simp
  have 5: "removeFolderTags_text load dump tst p content = b @ ''tags:: '' @ a"
    using assms(5-9) by (simp add: removeFolderTags_text_def replaceInline_def Let_def)
  show ?thesis using 1 2 3 4 5 by blast
qed

theorem strip_to_empty_deletes_key_witness:
  "removeFolderTags (\<lambda>p. p) DEFAULT_SETTINGS
     \<lparr>path = ''work/n.md'',
      front = Some (FmObject [(''title'', JStr ''T''), (''tags'', JArr [JStr ''work''])])\<rparr>
   = Inr \<lparr>path = ''work/n.md'', front = Some (FmObject [(''title'', JStr ''T'')])\<rparr>
   \<and> removeFolderTags_text (\<lambda>s. None) (\<lambda>kv. []) DEFAULT_SETTINGS_text ''work/n.md''
       ''Title\<newline>tags: work\<newline>Body''
     = ''Title\<newline>tags:: \<newline>Body''"
proof -
  let ?kv = "[(''title'', JStr ''T''), (''tags'', JArr [JStr ''work''])]"
  let ?file = "\<lparr>path = ''work/n.md'', front = Some (FmObject ?kv)\<rparr>"
  let ?content = "''Title\<newline>tags: work\<newline>Body''"
  have a: "front ?file = Some (FmObject ?kv)" by simp
  have b: "getFolderTagsFromPath (\<lambda>p. p) DEFAULT_SETTINGS (path ?file) = [''work'']"
    by (simp add: run_defs)
  have c: "[''work''] \<noteq> ([] :: string list)" by simp
  have d: "filter (\<lambda>t. t \<notin> set [''work'']) (existingTagsOf ?kv) = []"
    by (simp add: run_defs)
  have e: "yamlMatch ?content = None" by (simp add: yamlMatch_def)
  have f: "findInline True ?content = Some (''Title\<newline>'', ''tags: work'', ''work'', ''\<newline>Body'')"
    by (simp add: text_defs)
  have g: "getFolderTags_text DEFAULT_SETTINGS_text ''work/n.md'' = [''work'']"
    by (simp add: text_defs)
  have h: "filter (\<lambda>t. t \<notin> set [''work'']) (map trim (split_js CHR '','' ''work'')) = []"
    by (simp add: text_defs)
  show ?thesis
    using strip_to_empty_deletes_key [OF a b c d e f g c h] by simp
qed

text \<open>
  Where the claim as it is written fails: the revision that edits the text writes
  the line back with an empty list when its only tag is the folder tag; the line stays.
\<close>

theorem strip_to_empty_deletes_key_counterexample:
  "removeFolderTags_text (\<lambda>s. None) (\<lambda>kv. []) DEFAULT_SETTINGS_text ''work/n.md''
     ''tags:: work\<newline>Body''
   = ''tags:: \<newline>Body''"
  by (simp add: text_defs)

section \<open>Applying twice\<close>

lemma existingTagsOf_trimmed:
  assumes "t \<in> set (existingTagsOf kv)"
  shows "trim t = t"
proof (cases "map_of kv ''tags''")
  case None
  with assms show ?thesis by (simp add: existingTagsOf_def)
next
  case (Some v)
  with assms show ?thesis
    by (cases v) (auto simp: existingTagsOf_def trim_idem)
qed

text \<open>
  When no derived tag begins or ends with white space, a second call without an old path
  changes nothing.
\<close>

lemma apply_twice_trimmed:
  assumes "front file = Some (FmObject kv)"
    and "getFolderTagsFromPath np st (path file) = folderTags"
    and "folderTags \<noteq> []"
    and "\<forall>t\<in>set folderTags. trim t = t"
    and "applyFolderTag np st file act None = Inr file'"
  shows "applyFolderTag np st file' act None = Inr file'"
proof -
  define ts where "ts = pushNew (existingTagsOf kv) folderTags"
  define kv' where "kv' = AList.update ''tags'' (JArr (map JStr ts)) kv"
  have tl: "applyTagList np st act None folderTags kv = ts"
    by (simp add: applyTagList_def ts_def)
  have f': "file' = file\<lparr>front := Some (FmObject kv')\<rparr>"
    using applyFolderTag_object [OF assms(1-3), of act None] assms(5) tl
    by (simp add: kv'_def)
  have "\<forall>t\<in>set ts. trim t = t"
    using assms(4) existingTagsOf_trimmed [of _ kv] by (auto simp: ts_def pushNew_set)
  then have "map trim ts = ts" by (simp add: map_idI)
  moreover have "map_of kv' ''tags'' = Some (JArr (map JStr ts))"
    by (simp add: kv'_def update_conv')
  ultimately have ex: "existingTagsOf kv' = ts"
    by (simp add: existingTagsOf_def comp_def)
  have "set folderTags \<subseteq> set ts" by (simp add: ts_def pushNew_set)
  then have "applyTagList np st act None folderTags kv' = ts"
    by (simp add: applyTagList_def ex pushNew_present)
  moreover have "front file' = Some (FmObject kv')" and "path file' = path file"
    by (simp_all add: f')
  ultimately have "applyFolderTag np st file' act None =
      Inr (file'\<lparr>front := Some (FmObject (AList.update ''tags'' (JArr (map JStr ts)) kv'))\<rparr>)"
    using applyFolderTag_object [of file' kv' np st folderTags act None] assms(2,3) by simp
  then show ?thesis by (simp add: f' kv'_def)
qed

text \<open>
  C6 at an input where it fails. With the suffix set to one space, the derived tag of a
  note in the folder \<open>work\<close> ends with a space. The first call writes it; the second call
  reads it trimmed, does not find the derived tag among the trimmed entries and pushes it
  again; the third call leaves the entry \<open>work\<close> twice.
\<close>

theorem apply_twice_padded_tag:
  "applyFolderTag (\<lambda>p. p) \<lparr> folderDepth = Depth1, tagPrefix = [], tagSuffix = '' '' \<rparr>
     \<lparr>path = ''work/n.md'', front = Some (FmObject [])\<rparr> Create None
   = Inr \<lparr>path = ''work/n.md'', front = Some (FmObject [(''tags'', JArr [JStr ''work ''])])\<rparr>
   \<and> applyFolderTag (\<lambda>p. p) \<lparr> folderDepth = Depth1, tagPrefix = [], tagSuffix = '' '' \<rparr>
     \<lparr>path = ''work/n.md'', front = Some (FmObject [(''tags'', JArr [JStr ''work ''])])\<rparr>
     Create None
   = Inr \<lparr>path = ''work/n.md'',
          front = Some (FmObject [(''tags'', JArr [JStr ''work'', JStr ''work ''])])\<rparr>
   \<and> applyFolderTag (\<lambda>p. p) \<lparr> folderDepth = Depth1, tagPrefix = [], tagSuffix = '' '' \<rparr>
     \<lparr>path = ''work/n.md'',
      front = Some (FmObject [(''tags'', JArr [JStr ''work'', JStr ''work ''])])\<rparr>
     Create None
   = Inr \<lparr>path = ''work/n.md'',
          front = Some (FmObject [(''tags'', JArr [JStr ''work'', JStr ''work'', JStr ''work ''])])\<rparr>"
  by (simp add: run_defs)

section \<open>Errors in the bulk passes\<close>

text \<open>The rerun pass handles every note and raises its closing notice, whatever fails.\<close>

lemma reapplyLoop_length: "length (fst (reapplyLoop np st files)) = length files"
  by (induction files) (auto split: sum.splits)

lemma reapplyAll_completes:
  "length (fst (reapplyAll np st files)) = length files
   \<and> last (snd (reapplyAll np st files)) = ''Folder tags updated for all notes!''"
  by (simp add: reapplyAll_def reapplyLoop_length)

text \<open>
  C7 at an input where it fails. The first of two notes cannot be processed. The rerun
  pass reports it and goes on to the second note; the remove pass stops at it: the error
  escapes, the second note keeps its folder tag and the closing notice is not raised.
\<close>

theorem remove_pass_aborts:
  "reapplyAll (\<lambda>p. p) DEFAULT_SETTINGS
     [\<lparr>path = ''a/bad.md'', front = None\<rparr>,
      \<lparr>path = ''work/n.md'', front = Some (FmObject [])\<rparr>]
   = ([\<lparr>path = ''a/bad.md'', front = None\<rparr>,
       \<lparr>path = ''work/n.md'', front = Some (FmObject [(''tags'', JArr [JStr ''work''])])\<rparr>],
      [''Updating all notes...'', ''Failed to process: a/bad.md'',
       ''Folder tags updated for all notes!''])
   \<and> removeAll (\<lambda>p. p) DEFAULT_SETTINGS
     [\<lparr>path = ''a/bad.md'', front = None\<rparr>,
      \<lparr>path = ''work/n.md'', front = Some (FmObject [(''tags'', JArr [JStr ''work''])])\<rparr>]
   = ([\<lparr>path = ''a/bad.md'', front = None\<rparr>,
       \<lparr>path = ''work/n.md'', front = Some (FmObject [(''tags'', JArr [JStr ''work''])])\<rparr>],
      [''Removing folder tags from all notes...''],
      Some (ProcessFailed ''a/bad.md''))"
  by (simp add: run_defs reapplyAll_def removeAll_def)

end
